theory Spec2Isabelle
  imports Main "HOL-Library.Word"
begin

unbundle bit_operations_syntax

section \<open>Go values: bytes, errors, slices\<close>

text \<open>
  A Go \<open>byte\<close> is an 8-bit word, a \<open>[]byte\<close> a list of bytes, a \<open>string\<close> a list of
  characters. Slices are modelled with their capacity equal to their length, which is what
  \<open>make([]byte, n, n)\<close>, a \<open>nil\<close> slice and a converted string give. A run-time panic and a
  returned \<open>error\<close> are both values of the type \<open>error\<close>; \<open>is_panic\<close> tells them apart.
\<close>

type_synonym byte = "8 word"

datatype error =
    PanicIndex
  | PanicNil
  | PanicSlice
  | PanicMakeslice
  | ErrCount
  | ErrInvalidToken string string
  | ErrSequence "64 word" "64 word"

fun is_panic :: "error \<Rightarrow> bool" where
  "is_panic PanicIndex = True"
| "is_panic PanicNil = True"
| "is_panic PanicSlice = True"
| "is_panic PanicMakeslice = True"
| "is_panic ErrCount = False"
| "is_panic (ErrInvalidToken n v) = False"
| "is_panic (ErrSequence g e) = False"

text \<open>\<open>xs[lo:hi]\<close>: panics unless \<open>0 \<le> lo \<le> hi \<le> cap(xs)\<close>.\<close>

definition slice :: "'a list \<Rightarrow> int \<Rightarrow> int \<Rightarrow> error + 'a list" where
  "slice xs lo hi =
     (if 0 \<le> lo \<and> lo \<le> hi \<and> hi \<le> int (length xs)
      then Inr (take (nat (hi - lo)) (drop (nat lo) xs))
      else Inl PanicSlice)"

text \<open>\<open>xs[lo:]\<close>, that is \<open>xs[lo:len(xs)]\<close>.\<close>

definition slice_from :: "'a list \<Rightarrow> int \<Rightarrow> error + 'a list" where
  "slice_from xs lo = slice xs lo (int (length xs))"

text \<open>\<open>copy(dst, src)\<close> copies \<open>min(len(dst), len(src))\<close> elements; the result is the new \<open>dst\<close>.\<close>

definition copy :: "'a list \<Rightarrow> 'a list \<Rightarrow> 'a list" where
  "copy dst src = take (length dst) src @ drop (length src) dst"

text \<open>\<open>make([]byte, n, n)\<close>: panics on a negative length.\<close>

definition make_bytes :: "int \<Rightarrow> error + byte list" where
  "make_bytes n = (if n < 0 then Inl PanicMakeslice else Inr (replicate (nat n) 0))"

section \<open>Package sasl: constants and preference parsing\<close>

definition SaslPropertyQop :: string where
  "SaslPropertyQop = ''golang.security.sasl.qop''"

definition SaslPropertyStrength :: string where
  "SaslPropertyStrength = ''golang.security.sasl.strength''"

definition NO_PROTECTION :: byte where "NO_PROTECTION = 1"
definition INTEGRITY_ONLY_PROTECTION :: byte where "INTEGRITY_ONLY_PROTECTION = 2"
definition PRIVACY_PROTECTION :: byte where "PRIVACY_PROTECTION = 4"
definition LOW_STRENGTH :: byte where "LOW_STRENGTH = 1"
definition MEDIUM_STRENGTH :: byte where "MEDIUM_STRENGTH = 2"
definition HIGH_STRENGTH :: byte where "HIGH_STRENGTH = 4"

definition DEFAULT_QOP :: "byte list" where
  "DEFAULT_QOP = [NO_PROTECTION]"

definition QOP_TOKENS :: "string list" where
  "QOP_TOKENS = [''auth-conf'', ''auth-int'', ''auth'']"

definition QOP_MASKS :: "byte list" where
  "QOP_MASKS = [PRIVACY_PROTECTION, INTEGRITY_ONLY_PROTECTION, NO_PROTECTION]"

definition DEFAULT_STRENGTH :: "byte list" where
  "DEFAULT_STRENGTH = [HIGH_STRENGTH, MEDIUM_STRENGTH, LOW_STRENGTH]"

definition STRENGTH_TOKENS :: "string list" where
  "STRENGTH_TOKENS = [''low'', ''medium'', ''high'']"

definition STRENGTH_MASKS :: "byte list" where
  "STRENGTH_MASKS = [LOW_STRENGTH, MEDIUM_STRENGTH, HIGH_STRENGTH]"

text \<open>
  \<open>strings.Split(s, sep)\<close> for a non-empty separator: \<open>s\<close> is cut at every occurrence of the
  whole string \<open>sep\<close>, scanning from the left. \<open>cur\<close> holds the piece read so far. With an
  empty separator Go explodes the string into its characters.
\<close>

fun split_from :: "string \<Rightarrow> string \<Rightarrow> string \<Rightarrow> string list" where
  "split_from sep cur [] = [cur]"
| "split_from sep cur (c # cs) =
     (if sep \<noteq> [] \<and> take (length sep) (c # cs) = sep
      then cur # split_from sep [] (drop (length sep) (c # cs))
      else split_from sep (cur @ [c]) cs)"

definition Split :: "string \<Rightarrow> string \<Rightarrow> string list" where
  "Split s sep = (if sep = [] then map (\<lambda>c. [c]) s else split_from sep [] s)"

text \<open>
  \<open>strings.ToLower\<close> on the ASCII range: the letters \<open>A\<close> to \<open>Z\<close> move to \<open>a\<close> to \<open>z\<close>, every
  other byte is kept.
\<close>

definition lower_char :: "char \<Rightarrow> char" where
  "lower_char c =
     (let n = (of_char c :: nat) in if 65 \<le> n \<and> n \<le> 90 then char_of (n + 32) else c)"

definition ToLower :: "string \<Rightarrow> string" where
  "ToLower s = map lower_char s"

text \<open>
  The inner loop of \<open>parseProp\<close>, \<open>for j := 0; !found && j < len(vals); j++\<close>. The first
  argument counts the iterations that are left, \<open>len(vals) - j\<close>. The comparison reads
  \<open>vals[i]\<close>, as the source does. The state is \<open>found\<close>, \<open>answer\<close> and the caller's \<open>tokens\<close>
  slice (\<open>None\<close> for \<open>nil\<close>).
\<close>

fun parseProp_inner ::
  "nat \<Rightarrow> nat \<Rightarrow> string list \<Rightarrow> string list \<Rightarrow> byte list \<Rightarrow> nat \<Rightarrow>
   bool \<times> byte list \<times> string list option \<Rightarrow> error + (bool \<times> byte list \<times> string list option)"
where
  "parseProp_inner 0 j parts vals masks i st = Inr st"
| "parseProp_inner (Suc k) j parts vals masks i (found, answer, tokens) =
     (if found then Inr (found, answer, tokens)
      else if \<not> (i < length parts \<and> i < length vals) then Inl PanicIndex
      else if ToLower (parts ! i) \<noteq> ToLower (vals ! i)
           then parseProp_inner k (Suc j) parts vals masks i (found, answer, tokens)
      else if \<not> (j < length masks \<and> i < length answer) then Inl PanicIndex
      else (case tokens of
              None \<Rightarrow>
                parseProp_inner k (Suc j) parts vals masks i (True, answer[i := masks ! j], None)
            | Some ts \<Rightarrow>
                if j < length ts
                then parseProp_inner k (Suc j) parts vals masks i
                       (True, answer[i := masks ! j], Some (ts[j := parts ! i]))
                else Inl PanicIndex))"

text \<open>
  The outer loop, \<open>for i = 0; i < len(answer) && i < len(parts); i++\<close>; the first argument
  is the number of iterations left. It returns the final \<open>i\<close> with the state.
\<close>

fun parseProp_outer ::
  "nat \<Rightarrow> nat \<Rightarrow> string \<Rightarrow> string \<Rightarrow> string list \<Rightarrow> string list \<Rightarrow> byte list \<Rightarrow> bool \<Rightarrow>
   byte list \<times> string list option \<Rightarrow> error + (nat \<times> byte list \<times> string list option)"
where
  "parseProp_outer 0 i propName propVal parts vals masks ignore (answer, tokens) =
     Inr (i, answer, tokens)"
| "parseProp_outer (Suc k) i propName propVal parts vals masks ignore (answer, tokens) =
     (case parseProp_inner (length vals) 0 parts vals masks i (False, answer, tokens) of
        Inl e \<Rightarrow> Inl e
      | Inr (found, answer', tokens') \<Rightarrow>
          if \<not> found \<and> \<not> ignore then Inl (ErrInvalidToken propName propVal)
          else parseProp_outer k (Suc i) propName propVal parts vals masks ignore (answer', tokens'))"

text \<open>The closing loop \<open>for j := i; j < len(answer); j++ { answer[j] = 0 }\<close>.\<close>

fun zero_rest :: "nat \<Rightarrow> nat \<Rightarrow> byte list \<Rightarrow> byte list" where
  "zero_rest 0 j answer = answer"
| "zero_rest (Suc k) j answer = zero_rest k (Suc j) (answer[j := 0])"

definition parseProp ::
  "string \<Rightarrow> string \<Rightarrow> string list \<Rightarrow> byte list \<Rightarrow> string list option \<Rightarrow> bool \<Rightarrow>
   error + (byte list \<times> string list option)"
where
  "parseProp propName propVal vals masks tokens ignore =
     (let parts = Split propVal [CHR '','', CHR '' '', CHR 0x09, CHR 0x0A];
          answer = replicate (length vals) (0 :: byte)
      in case parseProp_outer (min (length answer) (length parts)) 0 propName propVal
                parts vals masks ignore (answer, tokens) of
           Inl e \<Rightarrow> Inl e
         | Inr (i, answer', tokens') \<Rightarrow>
             Inr (zero_rest (length answer' - i) i answer', tokens'))"

definition parseQop2 ::
  "string \<Rightarrow> string list option \<Rightarrow> bool \<Rightarrow> error + (byte list \<times> string list option)"
where
  "parseQop2 qop saveTokens ignore =
     (if qop = [] then Inr (DEFAULT_QOP, saveTokens)
      else parseProp SaslPropertyQop qop QOP_TOKENS QOP_MASKS saveTokens ignore)"

definition parseQop :: "string \<Rightarrow> error + byte list" where
  "parseQop qop = map_sum id fst (parseQop2 qop None False)"

definition parseStrength :: "string \<Rightarrow> error + byte list" where
  "parseStrength strength =
     (if length strength \<le> 0 then Inr DEFAULT_STRENGTH
      else map_sum id fst
             (parseProp SaslPropertyStrength strength STRENGTH_TOKENS STRENGTH_MASKS None False))"

section \<open>Package digest: cipher tables\<close>

text \<open>The cipher indices \<open>DES3 = iota\<close>, \<open>RC4\<close>, \<open>DES\<close>, \<open>RC4_56\<close>, \<open>RC4_40\<close>.\<close>

definition DES3 :: nat where "DES3 = 0"
definition RC4 :: nat where "RC4 = 1"
definition DES :: nat where "DES = 2"
definition RC4_56 :: nat where "RC4_56 = 3"
definition RC4_40 :: nat where "RC4_40 = 4"

definition DES_3_STRENGTH :: byte where "DES_3_STRENGTH = HIGH_STRENGTH"
definition RC4_STRENGTH :: byte where "RC4_STRENGTH = HIGH_STRENGTH"
definition DES_STRENGTH :: byte where "DES_STRENGTH = MEDIUM_STRENGTH"
definition RC4_56_STRENGTH :: byte where "RC4_56_STRENGTH = MEDIUM_STRENGTH"
definition RC4_40_STRENGTH :: byte where "RC4_40_STRENGTH = LOW_STRENGTH"

definition CIPHER_MASKS :: "byte list" where
  "CIPHER_MASKS =
     [DES_3_STRENGTH, RC4_STRENGTH, DES_3_STRENGTH, RC4_56_STRENGTH, RC4_40_STRENGTH]"

definition CIPHER_TOKENS :: "string list" where
  "CIPHER_TOKENS = [''3des'', ''rc4'', ''des'', ''rc4-56'', ''rc4-40'']"

section \<open>Network byte order helpers of package sasl\<close>

text \<open>
  Go's \<open>int\<close> is taken at 64 bits for the values that are stored and converted (the sequence
  counters and the integer that is encoded); positions and lengths (\<open>start\<close>, \<open>count\<close>,
  \<open>msgLen\<close>) are mathematical integers, far from the point where 64-bit index arithmetic
  would wrap.

  \<open>intToNetworkByteOrder\<close>: \<open>uNum := uint32(num)\<close>, then
  \<open>for idx := count - 1; idx >= 0; idx-- { buf[start+idx] = byte(uNum & 0xFF); uNum >>= 8 }\<close>.
  The first argument of the loop is \<open>idx + 1\<close>. The result is the buffer after the stores.
\<close>

fun intToNetworkByteOrder_loop ::
  "nat \<Rightarrow> 32 word \<Rightarrow> byte list \<Rightarrow> int \<Rightarrow> error + byte list"
where
  "intToNetworkByteOrder_loop 0 uNum buf start = Inr buf"
| "intToNetworkByteOrder_loop (Suc idx) uNum buf start =
     (let p = start + int idx
      in if 0 \<le> p \<and> p < int (length buf)
         then intToNetworkByteOrder_loop idx (drop_bit 8 uNum)
                (buf[nat p := ucast (uNum AND 0xFF)]) start
         else Inl PanicIndex)"

definition intToNetworkByteOrder ::
  "64 word \<Rightarrow> byte list \<Rightarrow> int \<Rightarrow> int \<Rightarrow> error + byte list"
where
  "intToNetworkByteOrder num buf start count =
     (if count > 4 then Inl ErrCount
      else intToNetworkByteOrder_loop (nat count) (ucast num) buf start)"

text \<open>
  \<open>networkByteOrderToInt\<close>:
  \<open>for idx := 0; idx < count; idx++ { result <<= 8; result |= int(buf[start+idx]) & 0xFF }\<close>.
  The first argument of the loop is \<open>count - idx\<close>.
\<close>

fun networkByteOrderToInt_loop ::
  "nat \<Rightarrow> int \<Rightarrow> 64 word \<Rightarrow> byte list \<Rightarrow> int \<Rightarrow> error + 64 word"
where
  "networkByteOrderToInt_loop 0 idx result buf start = Inr result"
| "networkByteOrderToInt_loop (Suc k) idx result buf start =
     (let p = start + idx
      in if 0 \<le> p \<and> p < int (length buf)
         then networkByteOrderToInt_loop k (idx + 1)
                (push_bit 8 result OR (ucast (buf ! nat p) AND 0xFF)) buf start
         else Inl PanicIndex)"

definition networkByteOrderToInt :: "byte list \<Rightarrow> int \<Rightarrow> int \<Rightarrow> error + 64 word" where
  "networkByteOrderToInt buf start count =
     (if count > 4 then Inl ErrCount
      else networkByteOrderToInt_loop (nat count) 0 0 buf start)"

section \<open>Package digest: the integrity context\<close>

text \<open>
  The hash functions come from Go's standard library and are parameters of the model:
  \<open>md5\<close> stands for \<open>md5.Sum\<close> and \<open>hmac k d\<close> for the 16 bytes that
  \<open>hmac.New(md5.New, k)\<close> returns from \<open>Sum(nil)\<close> after \<open>Write(d)\<close>.
\<close>

type_synonym md5_fun = "byte list \<Rightarrow> byte list"
type_synonym hmac_fun = "byte list \<Rightarrow> byte list \<Rightarrow> byte list"

definition bytes_of :: "string \<Rightarrow> byte list" where
  "bytes_of s = map of_char s"

definition CLIENT_INT_MAGIC :: string where
  "CLIENT_INT_MAGIC = ''golang sasl integrity client-to-server magic key''"

definition SVR_INT_MAGIC :: string where
  "SVR_INT_MAGIC = ''golang sasl integrity server-to-client magic key''"

definition EMPTY_BYTE_SLICE :: "byte list" where
  "EMPTY_BYTE_SLICE = []"

text \<open>
  \<open>MD5Base\<close> as the integrity code reads it: the only field used is the shared secret
  \<open>hA1\<close>. The declaration of that field is not in the source, so it is a field of this
  record. The field \<open>md5Base\<close> of a context is a pointer: \<open>None\<close> is \<open>nil\<close>.
\<close>

record MD5Base =
  hA1 :: "byte list"

record Integrity =
  myKi :: "byte list"
  peerKi :: "byte list"
  mySeqNum :: "64 word"
  peerSeqNum :: "64 word"
  messageType :: "byte list"
  sequenceNum :: "byte list"
  md5Base :: "MD5Base option"

text \<open>
  The value of \<open>&Integrity{}\<close>: every slice is \<open>nil\<close>, every counter 0 and \<open>md5Base\<close> is
  \<open>nil\<close>.
\<close>

definition zero_Integrity :: Integrity where
  "zero_Integrity =
     \<lparr> myKi = [], peerKi = [], mySeqNum = 0, peerSeqNum = 0,
       messageType = [], sequenceNum = [], md5Base = None \<rparr>"

text \<open>
  \<open>generateIntegrityKeyPair\<close> reads \<open>i.md5Base.hA1\<close> to size the key buffer: with \<open>md5Base\<close>
  \<open>nil\<close> that read is a nil pointer dereference. The function has no other way to fail.
\<close>

definition generateIntegrityKeyPair ::
  "md5_fun \<Rightarrow> bool \<Rightarrow> Integrity \<Rightarrow> error + Integrity"
where
  "generateIntegrityKeyPair md5 clientMode i =
     (let ciMagic = bytes_of CLIENT_INT_MAGIC;
          siMagic = bytes_of SVR_INT_MAGIC
      in case md5Base i of
           None \<Rightarrow> Inl PanicNil
         | Some base \<Rightarrow>
             (let secret = hA1 base;
                  keyBuffer0 = replicate (length secret + length ciMagic) (0 :: byte);
                  keyBuffer1 = copy keyBuffer0 secret;
                  keyBuffer2 = take (length secret) keyBuffer1
                                 @ copy (drop (length secret) keyBuffer1) ciMagic;
                  kic = md5 keyBuffer2;
                  keyBuffer3 = take (length secret) keyBuffer2
                                 @ copy (drop (length secret) keyBuffer2) siMagic;
                  kis = md5 keyBuffer3
              in Inr (if clientMode then i\<lparr>myKi := kic, peerKi := kis\<rparr>
                      else i\<lparr>myKi := kis, peerKi := kic\<rparr>)))"

text \<open>
  \<open>NewIntegrity\<close>: \<open>i := &Integrity{}\<close>, the key pair, then
  \<open>i.md5Base.IntToNetworkByteOrder(1, i.messageType, 0, 2)\<close>. The methods
  \<open>IntToNetworkByteOrder\<close> and \<open>NetworkByteOrderToInt\<close> that the contexts call on \<open>md5Base\<close>
  are the helpers \<open>intToNetworkByteOrder\<close> and \<open>networkByteOrderToInt\<close> of package sasl;
  their bodies do not use the receiver, and the model calls them with the same arguments.
\<close>

definition NewIntegrity :: "md5_fun \<Rightarrow> bool \<Rightarrow> error + Integrity" where
  "NewIntegrity md5 clientMode =
     (case generateIntegrityKeyPair md5 clientMode zero_Integrity of
        Inl e \<Rightarrow> Inl e
      | Inr i \<Rightarrow>
          (case intToNetworkByteOrder 1 (messageType i) 0 2 of
             Inl e \<Rightarrow> Inl e
           | Inr buf \<Rightarrow> Inr (i\<lparr>messageType := buf\<rparr>)))"

text \<open>
  \<open>GetHMac\<close>: \<open>seqnum[:4]\<close> and \<open>msg[start : start+msgLen]\<close> are written to a buffer, the
  buffer is authenticated under \<open>ki\<close>, and the first 10 bytes are returned.
\<close>

definition GetHMac ::
  "hmac_fun \<Rightarrow> byte list \<Rightarrow> byte list \<Rightarrow> byte list \<Rightarrow> int \<Rightarrow> int \<Rightarrow> error + byte list"
where
  "GetHMac hmac ki seqnum msg start msgLen =
     (case slice seqnum 0 4 of
        Inl e \<Rightarrow> Inl e
      | Inr sq \<Rightarrow>
          (case slice msg start (start + msgLen) of
             Inl e \<Rightarrow> Inl e
           | Inr body \<Rightarrow> slice (hmac ki (sq @ body)) 0 10))"

text \<open>
  \<open>IncrementSeqNum\<close> drops the error that \<open>IntToNetworkByteOrder\<close> returns; a panic in the
  store is not an error value and ends the call.
\<close>

definition IncrementSeqNum :: "Integrity \<Rightarrow> error + Integrity" where
  "IncrementSeqNum i =
     (case intToNetworkByteOrder (mySeqNum i) (sequenceNum i) 0 4 of
        Inl e \<Rightarrow> if is_panic e then Inl e else Inr (i\<lparr>mySeqNum := mySeqNum i + 1\<rparr>)
      | Inr buf \<Rightarrow> Inr (i\<lparr>sequenceNum := buf, mySeqNum := mySeqNum i + 1\<rparr>))"

text \<open>
  \<open>Wrap\<close> and \<open>Unwrap\<close> return the pair of the Go result (the bytes or the error) and the
  receiver after the call. Writes to a \<open>bytes.Buffer\<close> do not fail.
\<close>

definition Wrap ::
  "hmac_fun \<Rightarrow> Integrity \<Rightarrow> byte list \<Rightarrow> int \<Rightarrow> int \<Rightarrow> (error + byte list) \<times> Integrity"
where
  "Wrap hmac i outgoing start msgLen =
     (if msgLen = 0 then (Inr EMPTY_BYTE_SLICE, i)
      else case slice outgoing start (start + msgLen) of
        Inl e \<Rightarrow> (Inl e, i)
      | Inr body \<Rightarrow>
          (case IncrementSeqNum i of
             Inl e \<Rightarrow> (Inl e, i)
           | Inr i' \<Rightarrow>
               (case GetHMac hmac (myKi i') (sequenceNum i') outgoing start msgLen of
                  Inl e \<Rightarrow> (Inl e, i')
                | Inr mac \<Rightarrow>
                    (case slice mac 0 10 of
                       Inl e \<Rightarrow> (Inl e, i')
                     | Inr m10 \<Rightarrow>
                         (case slice (messageType i') 0 2 of
                            Inl e \<Rightarrow> (Inl e, i')
                          | Inr mt \<Rightarrow>
                              (case slice (sequenceNum i') 0 4 of
                                 Inl e \<Rightarrow> (Inl e, i')
                               | Inr sq \<Rightarrow> (Inr (body @ m10 @ mt @ sq), i')))))))"

text \<open>
  The four fields that \<open>Unwrap\<close> cuts out of \<open>incoming\<close>: \<open>msg\<close> of \<open>msgLen - 16\<close> bytes,
  then \<open>mac\<close>, \<open>msgType\<close> and \<open>seqNum\<close>, each filled by \<open>copy\<close> from an open-ended slice.
\<close>

definition Unwrap_fields ::
  "byte list \<Rightarrow> int \<Rightarrow> int \<Rightarrow> error + (byte list \<times> byte list \<times> byte list \<times> byte list)"
where
  "Unwrap_fields incoming start msgLen =
     (case make_bytes (msgLen - 16) of
        Inl e \<Rightarrow> Inl e
      | Inr msg0 \<Rightarrow>
          (case slice_from incoming start of
             Inl e \<Rightarrow> Inl e
           | Inr s1 \<Rightarrow>
               (let msg = copy msg0 s1 in
                case slice_from incoming (start + int (length msg)) of
                  Inl e \<Rightarrow> Inl e
                | Inr s2 \<Rightarrow>
                    (let mac = copy (replicate 10 0) s2 in
                     case slice_from incoming (start + int (length msg) + 10) of
                       Inl e \<Rightarrow> Inl e
                     | Inr s3 \<Rightarrow>
                         (let msgType = copy (replicate 2 0) s3 in
                          case slice_from incoming (start + int (length msg) + 12) of
                            Inl e \<Rightarrow> Inl e
                          | Inr s4 \<Rightarrow>
                              Inr (msg, mac, msgType, copy (replicate 4 0) s4))))))"

definition Unwrap ::
  "hmac_fun \<Rightarrow> Integrity \<Rightarrow> byte list \<Rightarrow> int \<Rightarrow> int \<Rightarrow> (error + byte list) \<times> Integrity"
where
  "Unwrap hmac i incoming start msgLen =
     (if msgLen = 0 then (Inr EMPTY_BYTE_SLICE, i)
      else case Unwrap_fields incoming start msgLen of
        Inl e \<Rightarrow> (Inl e, i)
      | Inr (msg, mac, msgType, seqNum) \<Rightarrow>
          (case GetHMac hmac (peerKi i) seqNum msg 0 (int (length msg)) of
             Inl e \<Rightarrow> (Inl e, i)
           | Inr expectedMac \<Rightarrow>
               if expectedMac \<noteq> mac then (Inr EMPTY_BYTE_SLICE, i)
               else (case networkByteOrderToInt seqNum 0 4 of
                       Inl e \<Rightarrow> (Inl e, i)
                     | Inr parsedSeqNum \<Rightarrow>
                         if parsedSeqNum \<noteq> peerSeqNum i
                         then (Inl (ErrSequence parsedSeqNum (peerSeqNum i)), i)
                         else (Inr msg, i\<lparr>peerSeqNum := peerSeqNum i + 1\<rparr>))))"

subsection \<open>The earlier revision, src/digest/security.go\<close>

text \<open>
  The file \<open>src/digest/security.go\<close> holds an earlier revision of the same context. Its
  \<open>Wrap\<close> has the same text; its \<open>GetHMac\<close> returns \<open>mac.Sum(nil)\<close> whole, and its \<open>Unwrap\<close>
  cuts the fields with closed slices \<open>incoming[lo:hi]\<close>.
\<close>

definition GetHMac_security_go ::
  "hmac_fun \<Rightarrow> byte list \<Rightarrow> byte list \<Rightarrow> byte list \<Rightarrow> int \<Rightarrow> int \<Rightarrow> error + byte list"
where
  "GetHMac_security_go hmac ki seqnum msg start msgLen =
     (case slice seqnum 0 4 of
        Inl e \<Rightarrow> Inl e
      | Inr sq \<Rightarrow>
          (case slice msg start (start + msgLen) of
             Inl e \<Rightarrow> Inl e
           | Inr body \<Rightarrow> Inr (hmac ki (sq @ body))))"

definition Wrap_security_go ::
  "hmac_fun \<Rightarrow> Integrity \<Rightarrow> byte list \<Rightarrow> int \<Rightarrow> int \<Rightarrow> (error + byte list) \<times> Integrity"
where
  "Wrap_security_go hmac i outgoing start msgLen =
     (if msgLen = 0 then (Inr EMPTY_BYTE_SLICE, i)
      else case slice outgoing start (start + msgLen) of
        Inl e \<Rightarrow> (Inl e, i)
      | Inr body \<Rightarrow>
          (case IncrementSeqNum i of
             Inl e \<Rightarrow> (Inl e, i)
           | Inr i' \<Rightarrow>
               (case GetHMac_security_go hmac (myKi i') (sequenceNum i') outgoing start msgLen of
                  Inl e \<Rightarrow> (Inl e, i')
                | Inr mac \<Rightarrow>
                    (case slice mac 0 10 of
                       Inl e \<Rightarrow> (Inl e, i')
                     | Inr m10 \<Rightarrow>
                         (case slice (messageType i') 0 2 of
                            Inl e \<Rightarrow> (Inl e, i')
                          | Inr mt \<Rightarrow>
                              (case slice (sequenceNum i') 0 4 of
                                 Inl e \<Rightarrow> (Inl e, i')
                               | Inr sq \<Rightarrow> (Inr (body @ m10 @ mt @ sq), i')))))))"

definition Unwrap_fields_security_go ::
  "byte list \<Rightarrow> int \<Rightarrow> int \<Rightarrow> error + (byte list \<times> byte list \<times> byte list \<times> byte list)"
where
  "Unwrap_fields_security_go incoming start msgLen =
     (case make_bytes (msgLen - 16) of
        Inl e \<Rightarrow> Inl e
      | Inr msg0 \<Rightarrow>
          (let n = int (length msg0) in
           case slice incoming start (start + n) of
             Inl e \<Rightarrow> Inl e
           | Inr s1 \<Rightarrow>
               (case slice incoming (start + n) (start + n + 10) of
                  Inl e \<Rightarrow> Inl e
                | Inr s2 \<Rightarrow>
                    (case slice incoming (start + n + 10) (start + n + 12) of
                       Inl e \<Rightarrow> Inl e
                     | Inr s3 \<Rightarrow>
                         (case slice incoming (start + n + 12) (start + n + 16) of
                            Inl e \<Rightarrow> Inl e
                          | Inr s4 \<Rightarrow>
                              Inr (copy msg0 s1, copy (replicate 10 0) s2,
                                   copy (replicate 2 0) s3, copy (replicate 4 0) s4))))))"

definition Unwrap_security_go ::
  "hmac_fun \<Rightarrow> Integrity \<Rightarrow> byte list \<Rightarrow> int \<Rightarrow> int \<Rightarrow> (error + byte list) \<times> Integrity"
where
  "Unwrap_security_go hmac i incoming start msgLen =
     (if msgLen = 0 then (Inr EMPTY_BYTE_SLICE, i)
      else case Unwrap_fields_security_go incoming start msgLen of
        Inl e \<Rightarrow> (Inl e, i)
      | Inr (msg, mac, msgType, seqNum) \<Rightarrow>
          (case GetHMac_security_go hmac (peerKi i) seqNum msg 0 (int (length msg)) of
             Inl e \<Rightarrow> (Inl e, i)
           | Inr expectedMac \<Rightarrow>
               if expectedMac \<noteq> mac then (Inr EMPTY_BYTE_SLICE, i)
               else (case networkByteOrderToInt seqNum 0 4 of
                       Inl e \<Rightarrow> (Inl e, i)
                     | Inr parsedSeqNum \<Rightarrow>
                         if parsedSeqNum \<noteq> peerSeqNum i
                         then (Inl (ErrSequence parsedSeqNum (peerSeqNum i)), i)
                         else (Inr msg, i\<lparr>peerSeqNum := peerSeqNum i + 1\<rparr>))))"

subsection \<open>The RC4 adapter\<close>

text \<open>
  \<open>rc4.Cipher\<close> belongs to the standard library. Its state is modelled by the keystream that
  the key fixes, a function from the position to the byte, and by the number of bytes
  already used. \<open>XORKeyStream(dst, src)\<close> does nothing on an empty \<open>src\<close>, panics when \<open>dst\<close>
  is shorter than \<open>src\<close>, and otherwise stores \<open>src\<close> XOR keystream in the front of \<open>dst\<close>.
  The result is the cipher and the written buffer after the call.
\<close>

record rc4_Cipher =
  keystream :: "nat \<Rightarrow> byte"
  used :: nat

definition NewCipher :: "(nat \<Rightarrow> byte) \<Rightarrow> rc4_Cipher" where
  "NewCipher ks = \<lparr> keystream = ks, used = 0 \<rparr>"

definition XORKeyStream ::
  "rc4_Cipher \<Rightarrow> byte list \<Rightarrow> byte list \<Rightarrow> error + (rc4_Cipher \<times> byte list)"
where
  "XORKeyStream c dst src =
     (if src = [] then Inr (c, dst)
      else if length dst < length src then Inl PanicSlice
      else Inr (c\<lparr>used := used c + length src\<rparr>,
                map (\<lambda>(b, k). b XOR keystream c k) (zip src [used c ..< used c + length src])
                  @ drop (length src) dst))"

record rc4Block =
  rc4Cipher :: rc4_Cipher

definition BlockSize :: "rc4Block \<Rightarrow> int" where
  "BlockSize r = 1"

text \<open>
  \<open>Encrypt(dst, src)\<close> and \<open>Decrypt(dst, src)\<close> return the adapter, \<open>dst\<close> and \<open>src\<close> as they
  are after the call. \<open>Decrypt\<close> calls \<open>XORKeyStream(src, dst)\<close>.
\<close>

definition Encrypt ::
  "rc4Block \<Rightarrow> byte list \<Rightarrow> byte list \<Rightarrow> error + (rc4Block \<times> byte list \<times> byte list)"
where
  "Encrypt r dst src =
     (case XORKeyStream (rc4Cipher r) dst src of
        Inl e \<Rightarrow> Inl e
      | Inr (c, dst') \<Rightarrow> Inr (r\<lparr>rc4Cipher := c\<rparr>, dst', src))"

definition Decrypt ::
  "rc4Block \<Rightarrow> byte list \<Rightarrow> byte list \<Rightarrow> error + (rc4Block \<times> byte list \<times> byte list)"
where
  "Decrypt r dst src =
     (case XORKeyStream (rc4Cipher r) src dst of
        Inl e \<Rightarrow> Inl e
      | Inr (c, src') \<Rightarrow> Inr (r\<lparr>rc4Cipher := c\<rparr>, dst, src'))"

section \<open>The wire format in the words of the specification\<close>

text \<open>
  Big-endian encodings of a 32-bit and a 16-bit value, and the value of a big-endian byte
  sequence. They state what the trailer of a wrapped message holds; the code's own
  conversions are \<open>intToNetworkByteOrder\<close> and \<open>networkByteOrderToInt\<close>.
\<close>

definition be32 :: "32 word \<Rightarrow> byte list" where
  "be32 w = [ucast (drop_bit 24 w), ucast (drop_bit 16 w), ucast (drop_bit 8 w), ucast w]"

definition be16 :: "16 word \<Rightarrow> byte list" where
  "be16 w = [ucast (drop_bit 8 w), ucast w]"

definition be_value :: "byte list \<Rightarrow> 64 word" where
  "be_value bs = foldl (\<lambda>r b. push_bit 8 r OR ucast b) 0 bs"

text \<open>The length of every HMAC-MD5 value.\<close>

definition md5_sized :: "hmac_fun \<Rightarrow> bool" where
  "md5_sized hmac = (\<forall>k d. length (hmac k d) = 16)"

section \<open>Sample values\<close>

text \<open>
  Concrete stand-ins with the shape of the library functions, used where a statement is
  evaluated on an explicit input: both return 16 bytes read from the end of their input.
\<close>

definition sample_hmac :: hmac_fun where
  "sample_hmac k d = take 16 (rev d @ k @ replicate 16 0)"

definition sample_md5 :: md5_fun where
  "sample_md5 d = take 16 (rev d @ replicate 16 0)"

text \<open>
  A context as the code means it to be after construction: \<open>md5Base\<close> set, the keys
  derived by \<open>generateIntegrityKeyPair\<close>, and the two buffers allocated and filled by hand.
\<close>

definition sample_ctx :: "bool \<Rightarrow> Integrity" where
  "sample_ctx clientMode =
     (case generateIntegrityKeyPair sample_md5 clientMode
             (zero_Integrity\<lparr>md5Base := Some \<lparr>hA1 = [1, 2, 3]\<rparr>\<rparr>) of
        Inl e \<Rightarrow> zero_Integrity
      | Inr i \<Rightarrow> i\<lparr>messageType := [0, 1], sequenceNum := [0, 0, 0, 0]\<rparr>)"

section \<open>Facts about the helpers\<close>

lemma ff32: "(0xFF :: 32 word) = mask 8" by (simp add: mask_eq_exp_minus_1)
lemma ff64: "(0xFF :: 64 word) = mask 8" by (simp add: mask_eq_exp_minus_1)

lemma ucast_and_ff: "(ucast ((w::32 word) AND 0xFF) :: 8 word) = ucast w"
  unfolding ff32 by (rule bit_word_eqI) (auto simp: bit_simps)

lemma ucast8_and_ff: "((ucast (b::8 word) :: 64 word) AND 0xFF) = ucast b"
  unfolding ff64 by (rule bit_word_eqI) (auto simp: bit_simps dest: bit_imp_le_length)

lemma slice_prefix: "n \<le> length xs \<Longrightarrow> slice xs 0 (int n) = Inr (take n xs)"
  by (simp add: slice_def)

lemma slice_ok:
  "0 \<le> lo \<Longrightarrow> lo \<le> hi \<Longrightarrow> hi \<le> int (length xs) \<Longrightarrow>
   slice xs lo hi = Inr (take (nat (hi - lo)) (drop (nat lo) xs))"
  by (simp add: slice_def)

lemma slice_from_ok:
  "0 \<le> lo \<Longrightarrow> lo \<le> int (length xs) \<Longrightarrow> slice_from xs lo = Inr (drop (nat lo) xs)"
  by (simp add: slice_from_def slice_def)

lemma copy_take: "length dst \<le> length src \<Longrightarrow> copy dst src = take (length dst) src"
  by (simp add: copy_def)

lemma intToNetworkByteOrder_4:
  assumes "4 \<le> length buf"
  shows "intToNetworkByteOrder num buf 0 4 = Inr (be32 (ucast num) @ drop 4 buf)"
proof -
  from assms obtain a b c d rest where buf: "buf = a # b # c # d # rest"
    by (cases buf; cases "tl buf"; cases "tl (tl buf)"; cases "tl (tl (tl buf))") auto
  show ?thesis
    by (simp add: buf intToNetworkByteOrder_def eval_nat_numeral be32_def ucast_and_ff drop_bit_drop_bit)
qed

lemma intToNetworkByteOrder_2:
  "intToNetworkByteOrder 1 buf 0 2 =
     (if 2 \<le> length buf then Inr (be16 1 @ drop 2 buf) else Inl PanicIndex)"
proof (cases buf)
  case Nil
  then show ?thesis by (simp add: intToNetworkByteOrder_def eval_nat_numeral)
next
  case (Cons a as)
  then show ?thesis
    by (cases as) (simp_all add: intToNetworkByteOrder_def eval_nat_numeral be16_def)
qed

lemma networkByteOrderToInt_loop_foldl:
  "0 \<le> idx \<Longrightarrow> nat idx + k \<le> length buf \<Longrightarrow>
   networkByteOrderToInt_loop k idx r buf 0 =
     Inr (foldl (\<lambda>r b. push_bit 8 r OR ucast b) r (take k (drop (nat idx) buf)))"
proof (induction k arbitrary: idx r)
  case 0
  then show ?case by simp
next
  case (Suc k)
  have lt: "nat idx < length buf" using Suc.prems by simp
  have step: "take (Suc k) (drop (nat idx) buf) = buf ! nat idx # take k (drop (nat (idx + 1)) buf)"
    using lt Suc.prems(1) by (simp add: Cons_nth_drop_Suc [symmetric] nat_add_distrib)
  have ih: "networkByteOrderToInt_loop k (idx + 1) r' buf 0 =
     Inr (foldl (\<lambda>r b. push_bit 8 r OR ucast b) r' (take k (drop (nat (idx + 1)) buf)))" for r'
    using Suc.prems by (intro Suc.IH) (simp_all add: nat_add_distrib)
  show ?case
    using lt Suc.prems(1)
    by (simp only: networkByteOrderToInt_loop.simps Let_def step ih ucast8_and_ff foldl_Cons) simp
qed

lemma networkByteOrderToInt_4:
  assumes "length bs = 4"
  shows "networkByteOrderToInt bs 0 4 = Inr (be_value bs)"
  using networkByteOrderToInt_loop_foldl [of 0 4 bs 0] assms
  by (simp add: networkByteOrderToInt_def be_value_def)

lemma be_value_be32: "be_value (be32 w) = ucast w"
  unfolding be_value_def be32_def
  apply simp
  apply (rule bit_word_eqI)
  apply (auto simp: bit_simps)
  subgoal for n by (cases "16 \<le> n") auto
  subgoal for n by (cases "16 \<le> n"; cases "24 \<le> n") (auto dest: bit_imp_le_length)
  subgoal for n by (cases "16 \<le> n"; cases "24 \<le> n") (auto dest: bit_imp_le_length)
  done

lemma length_be32 [simp]: "length (be32 w) = 4" by (simp add: be32_def)
lemma length_be16 [simp]: "length (be16 w) = 2" by (simp add: be16_def)

lemma IncrementSeqNum_ok:
  "4 \<le> length (sequenceNum i) \<Longrightarrow>
   IncrementSeqNum i =
     Inr (i\<lparr>sequenceNum := be32 (ucast (mySeqNum i)) @ drop 4 (sequenceNum i),
            mySeqNum := mySeqNum i + 1\<rparr>)"
  by (simp add: IncrementSeqNum_def intToNetworkByteOrder_4)

lemma IncrementSeqNum_nil:
  "length (sequenceNum i) < 4 \<Longrightarrow> IncrementSeqNum i = Inl PanicIndex"
  by (simp add: IncrementSeqNum_def intToNetworkByteOrder_def eval_nat_numeral)

lemma GetHMac_ok:
  assumes "md5_sized hmac" "4 \<le> length seqnum" "0 \<le> start" "0 \<le> msgLen"
    "start + msgLen \<le> int (length msg)"
  shows "GetHMac hmac ki seqnum msg start msgLen =
           Inr (take 10 (hmac ki (take 4 seqnum @ take (nat msgLen) (drop (nat start) msg))))"
proof -
  have len: "length (hmac ki d) = 16" for d using assms(1) by (simp add: md5_sized_def)
  have s1: "slice seqnum 0 4 = Inr (take 4 seqnum)"
    using slice_prefix [of 4 seqnum] assms(2) by simp
  have s2: "slice msg start (start + msgLen) = Inr (take (nat msgLen) (drop (nat start) msg))"
    using assms by (simp add: slice_ok)
  have s3: "slice (hmac ki d) 0 10 = Inr (take 10 (hmac ki d))" for d
    using slice_prefix [of 10 "hmac ki d"] by (simp add: len)
  show ?thesis by (simp add: GetHMac_def s1 s2 s3)
qed

lemma Wrap_ok:
  assumes "md5_sized hmac" "0 \<le> start" "0 < msgLen" "start + msgLen \<le> int (length outgoing)"
    "4 \<le> length (sequenceNum i)" "2 \<le> length (messageType i)"
  shows "Wrap hmac i outgoing start msgLen =
     (Inr (take (nat msgLen) (drop (nat start) outgoing)
           @ take 10 (hmac (myKi i)
               (be32 (ucast (mySeqNum i)) @ take (nat msgLen) (drop (nat start) outgoing)))
           @ take 2 (messageType i) @ be32 (ucast (mySeqNum i))),
      i\<lparr>sequenceNum := be32 (ucast (mySeqNum i)) @ drop 4 (sequenceNum i),
        mySeqNum := mySeqNum i + 1\<rparr>)"
proof -
  let ?P = "take (nat msgLen) (drop (nat start) outgoing)"
  let ?sq = "be32 (ucast (mySeqNum i))"
  let ?i' = "i\<lparr>sequenceNum := ?sq @ drop 4 (sequenceNum i), mySeqNum := mySeqNum i + 1\<rparr>"
  have len: "length (hmac k d) = 16" for k d using assms(1) by (simp add: md5_sized_def)
  have body: "slice outgoing start (start + msgLen) = Inr ?P"
    using assms by (simp add: slice_ok)
  have inc: "IncrementSeqNum i = Inr ?i'" using assms(5) by (rule IncrementSeqNum_ok)
  have mac: "GetHMac hmac (myKi i) (?sq @ drop 4 (sequenceNum i)) outgoing start msgLen =
      Inr (take 10 (hmac (myKi i) (?sq @ ?P)))"
    using GetHMac_ok [OF assms(1), of "?sq @ drop 4 (sequenceNum i)" start msgLen outgoing "myKi i"]
      assms by simp
  have m10: "slice (take 10 (hmac (myKi i) (?sq @ ?P))) 0 10 = Inr (take 10 (hmac (myKi i) (?sq @ ?P)))"
    using slice_prefix [of 10 "take 10 (hmac (myKi i) (?sq @ ?P))"] by (simp add: len)
  have mt: "slice (messageType i) 0 2 = Inr (take 2 (messageType i))"
    using slice_prefix [of 2 "messageType i"] assms(6) by simp
  have sq: "slice (?sq @ drop 4 (sequenceNum i)) 0 4 = Inr ?sq"
    using slice_prefix [of 4 "?sq @ drop 4 (sequenceNum i)"] by simp
  show ?thesis
    using assms(3) by (simp add: Wrap_def body inc mac m10 mt sq)
qed

lemma generateIntegrityKeyPair_keys:
  "generateIntegrityKeyPair md5 clientMode i =
     (case md5Base i of
        None \<Rightarrow> Inl PanicNil
      | Some base \<Rightarrow>
          Inr (if clientMode
               then i\<lparr>myKi := md5 (hA1 base @ bytes_of CLIENT_INT_MAGIC),
                      peerKi := md5 (hA1 base @ bytes_of SVR_INT_MAGIC)\<rparr>
               else i\<lparr>myKi := md5 (hA1 base @ bytes_of SVR_INT_MAGIC),
                      peerKi := md5 (hA1 base @ bytes_of CLIENT_INT_MAGIC)\<rparr>))"
proof -
  have l1: "length (bytes_of CLIENT_INT_MAGIC) = 48"
    by (simp add: bytes_of_def CLIENT_INT_MAGIC_def)
  have l2: "length (bytes_of SVR_INT_MAGIC) = 48"
    by (simp add: bytes_of_def SVR_INT_MAGIC_def)
  show ?thesis
    by (simp add: generateIntegrityKeyPair_def Let_def copy_def l1 l2 split: option.splits)
qed

section \<open>Preference parsing\<close>

text \<open>
  C2. \<open>parseQop\<close> on \<open>auth-int,auth-conf\<close> is claimed to return the masks of integrity and
  privacy followed by 0, each token being looked up in the whole canonical list. The code
  returns the invalid-token error: \<open>strings.Split\<close> cuts only at the whole four-character
  separator, so the input stays one token, and the comparison reads \<open>vals[i]\<close>, the canonical
  token at the position of the input token. For the same reason the single canonical
  token \<open>auth\<close> is rejected, while \<open>auth-conf\<close>, which stands first in the canonical list,
  is accepted.
\<close>

theorem parseQop_rejects_canonical_tokens:
  "parseQop ''auth-int,auth-conf'' = Inl (ErrInvalidToken SaslPropertyQop ''auth-int,auth-conf'')
   \<and> parseQop ''auth'' = Inl (ErrInvalidToken SaslPropertyQop ''auth'')
   \<and> parseQop ''auth-conf'' = Inr [PRIVACY_PROTECTION, 0, 0]"
  by (simp add: parseQop_def parseQop2_def parseProp_def Split_def QOP_TOKENS_def QOP_MASKS_def
      ToLower_def lower_char_def)

text \<open>
  C3. On the empty string \<open>parseQop\<close> is claimed to return the three masks of privacy,
  integrity and no protection, and \<open>parseStrength\<close> the masks high, medium, low. The second
  half holds. The first does not: \<open>DEFAULT_QOP\<close> holds the mask of no protection alone, as
  the comment on \<open>SaslPropertyQop\<close> says (the default qop is \<open>auth\<close>).
\<close>

theorem parseQop_empty_counterexample:
  "parseQop [] \<noteq> Inr [PRIVACY_PROTECTION, INTEGRITY_ONLY_PROTECTION, NO_PROTECTION]"
  by (simp add: parseQop_def parseQop2_def DEFAULT_QOP_def NO_PROTECTION_def PRIVACY_PROTECTION_def)

text \<open>
  C3 as amended: on the empty string \<open>parseQop\<close> returns the one-element sequence that holds
  the mask of no protection, and \<open>parseStrength\<close> returns high, medium, low.
\<close>

theorem parse_empty_defaults:
  "parseQop [] = Inr [NO_PROTECTION]
   \<and> parseStrength [] = Inr [HIGH_STRENGTH, MEDIUM_STRENGTH, LOW_STRENGTH]"
  by (simp add: parseQop_def parseQop2_def parseStrength_def DEFAULT_QOP_def DEFAULT_STRENGTH_def)

section \<open>Cipher strengths\<close>

text \<open>
  C7. The strength table is claimed to give high strength to 3DES and RC4-128, medium to
  DES and RC4-56 and low to RC4-40. Four entries agree; the entry at the index of \<open>des\<close> is
  \<open>DES_3_STRENGTH\<close>, the high-strength mask, and the constant \<open>DES_STRENGTH\<close> is never used.
\<close>

theorem CIPHER_MASKS_des_is_high:
  "CIPHER_TOKENS ! DES = ''des''
   \<and> CIPHER_MASKS ! DES = HIGH_STRENGTH
   \<and> CIPHER_MASKS ! DES \<noteq> MEDIUM_STRENGTH
   \<and> DES_STRENGTH = MEDIUM_STRENGTH
   \<and> CIPHER_MASKS ! DES3 = HIGH_STRENGTH
   \<and> CIPHER_MASKS ! RC4 = HIGH_STRENGTH
   \<and> CIPHER_MASKS ! RC4_56 = MEDIUM_STRENGTH
   \<and> CIPHER_MASKS ! RC4_40 = LOW_STRENGTH"
  by (simp add: CIPHER_TOKENS_def CIPHER_MASKS_def DES_def DES3_def RC4_def RC4_56_def RC4_40_def
      DES_3_STRENGTH_def RC4_STRENGTH_def DES_STRENGTH_def RC4_56_STRENGTH_def RC4_40_STRENGTH_def
      HIGH_STRENGTH_def MEDIUM_STRENGTH_def LOW_STRENGTH_def)

section \<open>Construction and buffer bounds\<close>






text \<open>
  C9. For a length between 1 and 15 \<open>Unwrap\<close> is claimed to return an error or an empty
  result without a negative allocation. The code has no guard: it evaluates
  \<open>make([]byte, msgLen-16)\<close> with a negative length, which panics.
\<close>

theorem Unwrap_short_length_panics:
  "1 \<le> msgLen \<Longrightarrow> msgLen \<le> 15 \<Longrightarrow>
   Unwrap hmac i incoming start msgLen = (Inl PanicMakeslice, i)"
  by (simp add: Unwrap_def Unwrap_fields_def make_bytes_def)

theorem Unwrap_short_length_panics_witness:
  "(1::int) \<le> 1 \<and> (1::int) \<le> 15
   \<and> Unwrap sample_hmac (sample_ctx False) [0] 0 1 = (Inl PanicMakeslice, sample_ctx False)"
  using Unwrap_short_length_panics [of 1 sample_hmac "sample_ctx False" "[0]" 0] by simp

section \<open>The RC4 adapter\<close>

lemma Decrypt_keeps_dst:
  "Decrypt r dst src = Inr (r', dst', src') \<Longrightarrow> dst' = dst"
  by (auto simp: Decrypt_def split: sum.splits)

text \<open>
  C10. \<open>Decrypt(dst, src)\<close> is claimed to read the ciphertext from \<open>src\<close> and to write the
  plaintext to \<open>dst\<close>, so that it undoes \<open>Encrypt\<close> under the same key. The code passes the
  arguments to \<open>XORKeyStream\<close> in the other order. With any keystream \<open>ks\<close>: encrypting the
  byte 0x41 gives \<open>0x41 XOR ks 0\<close>; decrypting that ciphertext into a zeroed destination
  leaves the destination zero and overwrites the ciphertext with \<open>ks 0\<close>.
\<close>

theorem Decrypt_does_not_fill_dst:
  "Encrypt \<lparr>rc4Cipher = NewCipher ks\<rparr> [0] [0x41]
     = Inr (\<lparr>rc4Cipher = \<lparr>keystream = ks, used = 1\<rparr>\<rparr>, [0x41 XOR ks 0], [0x41])
   \<and> Decrypt \<lparr>rc4Cipher = NewCipher ks\<rparr> [0] [0x41 XOR ks 0]
     = Inr (\<lparr>rc4Cipher = \<lparr>keystream = ks, used = 1\<rparr>\<rparr>, [0], [ks 0])"
  by (simp add: Encrypt_def Decrypt_def XORKeyStream_def NewCipher_def)

section \<open>The integrity context\<close>

lemma Unwrap_fields_ok:
  assumes "16 \<le> msgLen" "0 \<le> start" "start + msgLen \<le> int (length incoming)"
  shows "Unwrap_fields incoming start msgLen =
     Inr (take (nat (msgLen - 16)) (drop (nat start) incoming),
          take 10 (drop (nat (start + msgLen - 16)) incoming),
          take 2 (drop (nat (start + msgLen - 6)) incoming),
          take 4 (drop (nat (start + msgLen - 4)) incoming))"
proof -
  let ?n = "nat (msgLen - 16)"
  let ?msg = "take ?n (drop (nat start) incoming)"
  have mk: "make_bytes (msgLen - 16) = Inr (replicate ?n 0)"
    using assms(1) by (simp add: make_bytes_def)
  have s1: "slice_from incoming start = Inr (drop (nat start) incoming)"
    using assms by (simp add: slice_from_ok)
  have msg: "copy (replicate ?n 0) (drop (nat start) incoming) = ?msg"
    using assms by (simp add: copy_take)
  have len: "int (length ?msg) = msgLen - 16"
    using assms by simp
  have s2: "slice_from incoming (start + (msgLen - 16)) = Inr (drop (nat (start + msgLen - 16)) incoming)"
    using assms slice_from_ok [of "start + (msgLen - 16)" incoming] by (simp add: algebra_simps)
  have s3: "slice_from incoming (start + (msgLen - 16) + 10) = Inr (drop (nat (start + msgLen - 6)) incoming)"
    using assms slice_from_ok [of "start + (msgLen - 16) + 10" incoming] by (simp add: algebra_simps)
  have s4: "slice_from incoming (start + (msgLen - 16) + 12) = Inr (drop (nat (start + msgLen - 4)) incoming)"
    using assms slice_from_ok [of "start + (msgLen - 16) + 12" incoming] by (simp add: algebra_simps)
  have c2: "copy (replicate 10 0) (drop (nat (start + msgLen - 16)) incoming)
              = take 10 (drop (nat (start + msgLen - 16)) incoming)"
    using assms by (simp add: copy_take)
  have c3: "copy (replicate 2 0) (drop (nat (start + msgLen - 6)) incoming)
              = take 2 (drop (nat (start + msgLen - 6)) incoming)"
    using assms by (simp add: copy_take)
  have c4: "copy (replicate 4 0) (drop (nat (start + msgLen - 4)) incoming)
              = take 4 (drop (nat (start + msgLen - 4)) incoming)"
    using assms by (simp add: copy_take)
  show ?thesis
    unfolding Unwrap_fields_def mk sum.case s1 Let_def msg len s2 s3 s4 c2 c3 c4 ..
qed

lemma Unwrap_cases:
  assumes "md5_sized hmac" "16 \<le> msgLen" "0 \<le> start" "start + msgLen \<le> int (length incoming)"
    and "msg = take (nat (msgLen - 16)) (drop (nat start) incoming)"
    and "mac = take 10 (drop (nat (start + msgLen - 16)) incoming)"
    and "seqNum = take 4 (drop (nat (start + msgLen - 4)) incoming)"
  shows "Unwrap hmac i incoming start msgLen =
     (if take 10 (hmac (peerKi i) (seqNum @ msg)) \<noteq> mac then (Inr [], i)
      else if be_value seqNum \<noteq> peerSeqNum i
           then (Inl (ErrSequence (be_value seqNum) (peerSeqNum i)), i)
      else (Inr msg, i\<lparr>peerSeqNum := peerSeqNum i + 1\<rparr>))"
proof -
  have lsq: "length seqNum = 4" using assms by simp
  have lmsg: "int (length msg) = msgLen - 16" using assms by simp
  have h: "GetHMac hmac (peerKi i) seqNum msg 0 (int (length msg)) =
             Inr (take 10 (hmac (peerKi i) (seqNum @ msg)))"
    using GetHMac_ok [OF assms(1), of seqNum 0 "int (length msg)" msg "peerKi i"] lsq by simp
  have n: "networkByteOrderToInt seqNum 0 4 = Inr (be_value seqNum)"
    using lsq by (rule networkByteOrderToInt_4)
  have f: "Unwrap_fields incoming start msgLen =
      Inr (msg, mac, take 2 (drop (nat (start + msgLen - 6)) incoming), seqNum)"
    using Unwrap_fields_ok [OF assms(2-4)] assms(5-7) by simp
  show ?thesis
    using assms(2) by (simp add: Unwrap_def f h n EMPTY_BYTE_SLICE_def)
qed

lemma md5_sized_sample_hmac: "md5_sized sample_hmac"
  by (auto simp: md5_sized_def sample_hmac_def)

lemma Wrap_Unwrap_roundtrip:
  assumes "md5_sized hmac" "P \<noteq> []"
    and "4 \<le> length (sequenceNum c)" "2 \<le> length (messageType c)"
    and "peerKi s = myKi c"
    and "peerSeqNum s = ucast (ucast (mySeqNum c) :: 32 word)"
  shows "\<exists>w c'. Wrap hmac c P 0 (int (length P)) = (Inr w, c')
           \<and> mySeqNum c' = mySeqNum c + 1
           \<and> Unwrap hmac s w 0 (int (length w)) = (Inr P, s\<lparr>peerSeqNum := peerSeqNum s + 1\<rparr>)"
proof -
  let ?sq = "be32 (ucast (mySeqNum c))"
  let ?mac = "take 10 (hmac (myKi c) (?sq @ P))"
  let ?w = "P @ ?mac @ take 2 (messageType c) @ ?sq"
  let ?c' = "c\<lparr>sequenceNum := ?sq @ drop 4 (sequenceNum c), mySeqNum := mySeqNum c + 1\<rparr>"
  have len: "length (hmac k d) = 16" for k d using assms(1) by (simp add: md5_sized_def)
  have w: "Wrap hmac c P 0 (int (length P)) = (Inr ?w, ?c')"
    using Wrap_ok [OF assms(1), of 0 "int (length P)" P c] assms(2-4) by simp
  have lw: "int (length ?w) = int (length P) + 16"
    using assms(4) by (simp add: len)
  have u: "Unwrap hmac s ?w 0 (int (length ?w)) =
      (Inr P, s\<lparr>peerSeqNum := peerSeqNum s + 1\<rparr>)"
    using assms(4)
    by (subst Unwrap_cases [OF assms(1), where msg = P and mac = ?mac and seqNum = ?sq])
       (simp_all add: len lw assms(5,6) be_value_be32 del: of_nat_add)
  show ?thesis using w u by simp
qed

lemma Wrap_security_go_ok:
  assumes "md5_sized hmac" "0 \<le> start" "0 < msgLen" "start + msgLen \<le> int (length outgoing)"
    "4 \<le> length (sequenceNum i)" "2 \<le> length (messageType i)"
  shows "Wrap_security_go hmac i outgoing start msgLen =
     (Inr (take (nat msgLen) (drop (nat start) outgoing)
           @ take 10 (hmac (myKi i)
               (be32 (ucast (mySeqNum i)) @ take (nat msgLen) (drop (nat start) outgoing)))
           @ take 2 (messageType i) @ be32 (ucast (mySeqNum i))),
      i\<lparr>sequenceNum := be32 (ucast (mySeqNum i)) @ drop 4 (sequenceNum i),
        mySeqNum := mySeqNum i + 1\<rparr>)"
proof -
  let ?P = "take (nat msgLen) (drop (nat start) outgoing)"
  let ?sq = "be32 (ucast (mySeqNum i))"
  let ?i' = "i\<lparr>sequenceNum := ?sq @ drop 4 (sequenceNum i), mySeqNum := mySeqNum i + 1\<rparr>"
  have len: "length (hmac k d) = 16" for k d using assms(1) by (simp add: md5_sized_def)
  have body: "slice outgoing start (start + msgLen) = Inr ?P"
    using assms by (simp add: slice_ok)
  have inc: "IncrementSeqNum i = Inr ?i'" using assms(5) by (rule IncrementSeqNum_ok)
  have s1: "slice (?sq @ drop 4 (sequenceNum i)) 0 4 = Inr ?sq"
    using slice_prefix [of 4 "?sq @ drop 4 (sequenceNum i)"] by simp
  have mac: "GetHMac_security_go hmac (myKi i) (?sq @ drop 4 (sequenceNum i)) outgoing start msgLen =
      Inr (hmac (myKi i) (?sq @ ?P))"
    by (simp add: GetHMac_security_go_def s1 body)
  have m10: "slice (hmac (myKi i) (?sq @ ?P)) 0 10 = Inr (take 10 (hmac (myKi i) (?sq @ ?P)))"
    using slice_prefix [of 10 "hmac (myKi i) (?sq @ ?P)"] by (simp add: len)
  have mt: "slice (messageType i) 0 2 = Inr (take 2 (messageType i))"
    using slice_prefix [of 2 "messageType i"] assms(6) by simp
  show ?thesis
    using assms(3) by (simp add: Wrap_security_go_def body inc mac m10 mt s1)
qed

lemma Unwrap_fields_security_go_ok:
  assumes "16 \<le> msgLen" "0 \<le> start" "start + msgLen \<le> int (length incoming)"
  shows "Unwrap_fields_security_go incoming start msgLen =
     Inr (take (nat (msgLen - 16)) (drop (nat start) incoming),
          take 10 (drop (nat (start + msgLen - 16)) incoming),
          take 2 (drop (nat (start + msgLen - 6)) incoming),
          take 4 (drop (nat (start + msgLen - 4)) incoming))"
proof -
  let ?n = "nat (msgLen - 16)"
  have mk: "make_bytes (msgLen - 16) = Inr (replicate ?n 0)"
    using assms(1) by (simp add: make_bytes_def)
  have n: "int (length (replicate ?n (0::byte))) = msgLen - 16" using assms by simp
  have s1: "slice incoming start (start + (msgLen - 16)) = Inr (take ?n (drop (nat start) incoming))"
    using assms slice_ok [of start "start + (msgLen - 16)" incoming] by simp
  have s2: "slice incoming (start + (msgLen - 16)) (start + (msgLen - 16) + 10)
              = Inr (take 10 (drop (nat (start + msgLen - 16)) incoming))"
    using assms slice_ok [of "start + (msgLen - 16)" "start + (msgLen - 16) + 10" incoming]
    by (simp add: algebra_simps)
  have s3: "slice incoming (start + (msgLen - 16) + 10) (start + (msgLen - 16) + 12)
              = Inr (take 2 (drop (nat (start + msgLen - 6)) incoming))"
    using assms slice_ok [of "start + (msgLen - 16) + 10" "start + (msgLen - 16) + 12" incoming]
    by (simp add: algebra_simps)
  have s4: "slice incoming (start + (msgLen - 16) + 12) (start + (msgLen - 16) + 16)
              = Inr (take 4 (drop (nat (start + msgLen - 4)) incoming))"
    using assms slice_ok [of "start + (msgLen - 16) + 12" "start + (msgLen - 16) + 16" incoming]
    by (simp add: algebra_simps)
  have c1: "copy (replicate ?n 0) (take ?n (drop (nat start) incoming))
              = take ?n (drop (nat start) incoming)"
    using assms by (simp add: copy_def)
  have c2: "copy (replicate 10 0) (take 10 (drop (nat (start + msgLen - 16)) incoming))
              = take 10 (drop (nat (start + msgLen - 16)) incoming)"
    using assms by (simp add: copy_def)
  have c3: "copy (replicate 2 0) (take 2 (drop (nat (start + msgLen - 6)) incoming))
              = take 2 (drop (nat (start + msgLen - 6)) incoming)"
    using assms by (simp add: copy_def)
  have c4: "copy (replicate 4 0) (take 4 (drop (nat (start + msgLen - 4)) incoming))
              = take 4 (drop (nat (start + msgLen - 4)) incoming)"
    using assms by (simp add: copy_def)
  show ?thesis
    unfolding Unwrap_fields_security_go_def mk sum.case Let_def n s1 s2 s3 s4 c1 c2 c3 c4 ..
qed

lemma Unwrap_security_go_discards:
  assumes "md5_sized hmac" "16 \<le> msgLen" "0 \<le> start" "start + msgLen \<le> int (length incoming)"
  shows "Unwrap_security_go hmac i incoming start msgLen = (Inr [], i)"
proof -
  define msg where "msg = take (nat (msgLen - 16)) (drop (nat start) incoming)"
  define mac where "mac = take 10 (drop (nat (start + msgLen - 16)) incoming)"
  define mt where "mt = take 2 (drop (nat (start + msgLen - 6)) incoming)"
  define sq where "sq = take 4 (drop (nat (start + msgLen - 4)) incoming)"
  have f: "Unwrap_fields_security_go incoming start msgLen = Inr (msg, mac, mt, sq)"
    unfolding msg_def mac_def mt_def sq_def using assms(2-4) by (rule Unwrap_fields_security_go_ok)
  have len: "length (hmac k d) = 16" for k d using assms(1) by (simp add: md5_sized_def)
  have lsq: "length sq = 4" and lmac: "length mac = 10"
    using assms by (simp_all add: sq_def mac_def)
  have s1: "slice sq 0 4 = Inr sq"
    using slice_prefix [of 4 sq] lsq by simp
  have s2: "slice msg 0 (int (length msg)) = Inr msg"
    using slice_prefix [of "length msg" msg] by simp
  have h: "GetHMac_security_go hmac (peerKi i) sq msg 0 (int (length msg)) =
             Inr (hmac (peerKi i) (sq @ msg))"
    by (simp add: GetHMac_security_go_def s1 s2)
  have ne: "hmac (peerKi i) (sq @ msg) \<noteq> mac"
  proof
    assume "hmac (peerKi i) (sq @ msg) = mac"
    then have "length (hmac (peerKi i) (sq @ msg)) = length mac" by simp
    then show False by (simp add: len lmac)
  qed
  show ?thesis
    using assms(2) ne by (simp add: Unwrap_security_go_def f h EMPTY_BYTE_SLICE_def)
qed

subsection \<open>Wrap\<close>

text \<open>
  On a context whose \<open>sequenceNum\<close> buffer holds at least 4 bytes and whose \<open>messageType\<close>
  buffer is the result of the store \<open>IntToNetworkByteOrder(1, buf, 0, 2)\<close>, \<open>Wrap\<close> returns the
  plaintext followed by 16 bytes: 10 bytes of HMAC, the type 1 on 2 bytes and the
  big-endian counter on 4 bytes, and the counter grows by one.
\<close>

lemma Wrap_layout_on_allocated_buffers:
  assumes "md5_sized hmac"
    and "0 \<le> start" and "0 < msgLen" and "start + msgLen \<le> int (length outgoing)"
    and "P = take (nat msgLen) (drop (nat start) outgoing)"
    and "4 \<le> length (sequenceNum i)"
    and "intToNetworkByteOrder 1 buf 0 2 = Inr (messageType i)"
  shows "Wrap hmac i outgoing start msgLen =
           (Inr (P @ take 10 (hmac (myKi i) (be32 (ucast (mySeqNum i)) @ P))
                   @ be16 1 @ be32 (ucast (mySeqNum i))),
            i\<lparr>sequenceNum := be32 (ucast (mySeqNum i)) @ drop 4 (sequenceNum i),
              mySeqNum := mySeqNum i + 1\<rparr>)
         \<and> length (take 10 (hmac (myKi i) (be32 (ucast (mySeqNum i)) @ P))
                   @ be16 1 @ be32 (ucast (mySeqNum i))) = 16"
proof -
  have "2 \<le> length buf" and "messageType i = be16 1 @ drop 2 buf"
    using assms(7) by (auto simp: intToNetworkByteOrder_2 split: if_splits)
  then have mt: "2 \<le> length (messageType i) \<and> take 2 (messageType i) = be16 1"
    by simp
  have len: "length (hmac k d) = 16" for k d using assms(1) by (simp add: md5_sized_def)
  show ?thesis
    using Wrap_ok [OF assms(1-4) assms(6), of ] mt by (simp add: assms(5) len)
qed

text \<open>
  C4. For a non-empty plaintext \<open>Wrap\<close> is claimed to return the plaintext followed by the
  16-byte trailer and to advance the own counter. On the contexts that the code provides
  this does not happen. The only context value the package builds is \<open>&Integrity{}\<close>, whose
  \<open>sequenceNum\<close> is \<open>nil\<close>, and no operation ever replaces that buffer. On that value \<open>Wrap\<close>
  of a non-empty plaintext \<open>x # xs\<close> panics and returns nothing. The same holds on every
  context with a \<open>nil\<close> sequence buffer, also when \<open>md5Base\<close> is set: the store of
  \<open>IncrementSeqNum\<close> is out of range, and the counter is not advanced.
\<close>

theorem Wrap_panics_on_nil_sequence_buffer:
  "Wrap hmac (i\<lparr>sequenceNum := [], md5Base := Some base\<rparr>) (x # xs) 0 (1 + int (length xs))
     = (Inl PanicIndex, i\<lparr>sequenceNum := [], md5Base := Some base\<rparr>)
   \<and> (\<exists>e. is_panic e
          \<and> Wrap hmac zero_Integrity (x # xs) 0 (1 + int (length xs)) = (Inl e, zero_Integrity))"
proof -
  have s: "slice (x # xs) 0 (1 + int (length xs)) = Inr (x # xs)"
    using slice_prefix [of "length (x # xs)" "x # xs"] by simp
  have a: "Wrap hmac (i\<lparr>sequenceNum := [], md5Base := Some base\<rparr>) (x # xs) 0 (1 + int (length xs))
     = (Inl PanicIndex, i\<lparr>sequenceNum := [], md5Base := Some base\<rparr>)"
    by (simp add: Wrap_def s IncrementSeqNum_nil)
  have b: "Wrap hmac zero_Integrity (x # xs) 0 (1 + int (length xs))
     = (Inl PanicIndex, zero_Integrity)"
    by (simp add: Wrap_def s IncrementSeqNum_nil zero_Integrity_def)
  have "is_panic PanicIndex" by simp
  with a b show ?thesis by blast
qed

subsection \<open>Unwrap\<close>


lemma sample_ctx_False:
  "peerKi (sample_ctx False) =
     [121, 101, 107, 32, 99, 105, 103, 97, 109, 32, 114, 101, 118, 114, 101, 115]"
  "peerSeqNum (sample_ctx False) = 0"
  by (simp_all add: sample_ctx_def generateIntegrityKeyPair_keys sample_md5_def bytes_of_def
      CLIENT_INT_MAGIC_def zero_Integrity_def)

lemma sample_ctx_True:
  "myKi (sample_ctx True) =
     [121, 101, 107, 32, 99, 105, 103, 97, 109, 32, 114, 101, 118, 114, 101, 115]"
  "mySeqNum (sample_ctx True) = 0"
  "sequenceNum (sample_ctx True) = [0, 0, 0, 0]"
  "messageType (sample_ctx True) = [0, 1]"
  by (simp_all add: sample_ctx_def generateIntegrityKeyPair_keys sample_md5_def bytes_of_def
      CLIENT_INT_MAGIC_def zero_Integrity_def)


text \<open>
  C6. A message that a context has consumed is rejected when it is presented again. A call
  has consumed \<open>m\<close> when it returned without error and moved the expected sequence number.
  The second call on the resulting context returns the sequencing error, naming the number
  in the message and the number now expected, and leaves the context, hence the expected
  number, as it was.
\<close>

theorem Unwrap_replay_rejected:
  assumes "Unwrap hmac i m start msgLen = (Inr p, i')"
    and "peerSeqNum i' \<noteq> peerSeqNum i"
  shows "Unwrap hmac i' m start msgLen = (Inl (ErrSequence (peerSeqNum i) (peerSeqNum i')), i')
         \<and> peerSeqNum i' = peerSeqNum i + 1"
  using assms
  by (auto simp: Unwrap_def split: if_splits sum.splits prod.splits)

lemma sample_Unwrap_once:
  "Unwrap sample_hmac (sample_ctx False)
     [65, 65, 0, 0, 0, 0, 121, 101, 107, 32, 99, 0, 1, 0, 0, 0, 0] 0 17
   = (Inr [65], (sample_ctx False)\<lparr>peerSeqNum := 1\<rparr>)"
proof -
  have v: "be_value [0, 0, 0, 0] = 0" by (simp add: be_value_def)
  show ?thesis
    using Unwrap_cases [OF md5_sized_sample_hmac, of 17 0
        "[65, 65, 0, 0, 0, 0, 121, 101, 107, 32, 99, 0, 1, 0, 0, 0, 0]"
        "[65]" "[65, 0, 0, 0, 0, 121, 101, 107, 32, 99]" "[0, 0, 0, 0]" "sample_ctx False"]
    by (simp add: sample_ctx_False sample_hmac_def v)
qed

theorem Unwrap_replay_rejected_witness:
  "Unwrap sample_hmac (sample_ctx False)
     [65, 65, 0, 0, 0, 0, 121, 101, 107, 32, 99, 0, 1, 0, 0, 0, 0] 0 17
     = (Inr [65], (sample_ctx False)\<lparr>peerSeqNum := 1\<rparr>)
   \<and> peerSeqNum ((sample_ctx False)\<lparr>peerSeqNum := 1\<rparr>) \<noteq> peerSeqNum (sample_ctx False)
   \<and> Unwrap sample_hmac ((sample_ctx False)\<lparr>peerSeqNum := 1\<rparr>)
     [65, 65, 0, 0, 0, 0, 121, 101, 107, 32, 99, 0, 1, 0, 0, 0, 0] 0 17
     = (Inl (ErrSequence 0 1), (sample_ctx False)\<lparr>peerSeqNum := 1\<rparr>)"
proof -
  have ne: "peerSeqNum ((sample_ctx False)\<lparr>peerSeqNum := 1\<rparr>) \<noteq> peerSeqNum (sample_ctx False)"
    by (simp add: sample_ctx_False)
  show ?thesis
    using Unwrap_replay_rejected [OF sample_Unwrap_once ne] sample_Unwrap_once ne
    by (simp add: sample_ctx_False)
qed

subsection \<open>Round trip\<close>

text \<open>
  In the later revision a message wrapped by one side is delivered by the other, provided
  the sender's buffers are allocated, the receiver's peer key is the sender's own key, and
  the receiver expects the sender's counter (\<open>Wrap_Unwrap_roundtrip\<close>); the keys that
  \<open>generateIntegrityKeyPair\<close> derives from one secret with opposite modes are such a pair.
  In the revision \<open>src/digest/security.go\<close> the same message is always discarded, because
  the 16-byte HMAC is compared with the 10-byte field (\<open>Unwrap_security_go_discards\<close>).
\<close>

lemma generateIntegrityKeyPair_opposite:
  assumes "md5Base a = Some base" and "md5Base b = Some base"
    and "generateIntegrityKeyPair md5 clientMode a = Inr c"
    and "generateIntegrityKeyPair md5 (\<not> clientMode) b = Inr s"
  shows "peerKi s = myKi c \<and> myKi s = peerKi c"
  using assms by (auto simp: generateIntegrityKeyPair_keys split: if_splits)

lemma sample_roundtrip:
  "\<exists>w c'. Wrap sample_hmac (sample_ctx True) [65] 0 1 = (Inr w, c')
     \<and> Unwrap sample_hmac (sample_ctx False) w 0 (int (length w))
         = (Inr [65], (sample_ctx False)\<lparr>peerSeqNum := peerSeqNum (sample_ctx False) + 1\<rparr>)"
  using Wrap_Unwrap_roundtrip [OF md5_sized_sample_hmac, of "[65]" "sample_ctx True" "sample_ctx False"]
  by (auto simp: sample_ctx_True sample_ctx_False)

text \<open>
  C1. The claim is that, for contexts constructed from one secret with opposite modes,
  what one side wraps the other unwraps to the same payload, moving its expected sequence
  number by one. The code never constructs a context: \<open>NewIntegrity\<close> takes no secret,
  leaves \<open>md5Base\<close> \<open>nil\<close> and, for the client mode as for the server mode, panics in the key
  derivation at the read of \<open>i.md5Base.hA1\<close>. It returns no context (and no error value)
  on which \<open>Wrap\<close> or \<open>Unwrap\<close> could be called.
\<close>

theorem NewIntegrity_always_panics:
  "NewIntegrity md5 True = Inl PanicNil \<and> NewIntegrity md5 False = Inl PanicNil
   \<and> (\<forall>c. NewIntegrity md5 clientMode \<noteq> Inr c)"
  by (simp add: NewIntegrity_def generateIntegrityKeyPair_keys zero_Integrity_def)

end
